theory Spec2Isabelle
  imports Main "HOL-Library.Word"
begin

section \<open>The batch driver of transcoder-go (cmd/root.go)\<close>

text \<open>
  The development embeds the closure \<^verbatim>\<open>rootCmd.Run\<close> of \<^verbatim>\<open>cmd/root.go\<close>: the loop over the
  candidate files (lines 67 to 204), the derivation of the three paths that belong to a
  candidate, the two sentinel checks, the call of the transcode session and the decision
  that follows it. Paths are byte strings, the file system is a map from paths to files,
  and every action the driver takes on the outside world is appended to a trace.

  Left out are the expansion of the arguments by \<^verbatim>\<open>filepath.Glob\<close> (lines 53 to 65; the
  loop takes the list of candidates as it is), the set-up of logging and configuration,
  and the text of the log messages, of which the trace keeps the level.
\<close>

subsection \<open>Paths (path/filepath and strings, Unix separators)\<close>

type_synonym path = string

abbreviation sep :: char where
  "sep \<equiv> CHR ''/''"

abbreviation dot :: char where
  "dot \<equiv> CHR ''.''"

text \<open>
  \<^verbatim>\<open>filepath.Ext\<close> scans the path from its end and stops at the first separator; the
  extension starts at the last dot of the last element and is empty without one.
\<close>

definition Ext :: "path \<Rightarrow> string" where
  "Ext p =
     (let elem = takeWhile (\<lambda>c. c \<noteq> sep) (rev p)
      in if dot \<in> set elem then dot # rev (takeWhile (\<lambda>c. c \<noteq> dot) elem) else [])"

text \<open>
  \<^verbatim>\<open>strings.LastIndex(fileName, ".")\<close>: the index of the last dot of the whole string, or
  \<open>-1\<close>. The separator of the call is the one-byte string of line 86, so the model takes
  none.
\<close>

definition LastIndex :: "string \<Rightarrow> int" where
  "LastIndex s =
     (if dot \<in> set s then int (length (dropWhile (\<lambda>c. c \<noteq> dot) (rev s))) - 1 else - 1)"

text \<open>
  \<^verbatim>\<open>filepath.Clean\<close>, as the library writes it: \<open>out\<close> is the buffer written so far and
  \<open>dotdot\<close> the length below which a \<^verbatim>\<open>..\<close> element may not remove anything.
\<close>

function backtrack :: "string \<Rightarrow> nat \<Rightarrow> nat \<Rightarrow> nat" where
  "backtrack out dotdot w =
     (if dotdot < w \<and> out ! w \<noteq> sep then backtrack out dotdot (w - 1) else w)"
  by pat_completeness auto
termination
  by (relation "measure (\<lambda>(out, dotdot, w). w)") auto

declare backtrack.simps [simp del]

function clean_loop :: "bool \<Rightarrow> string \<Rightarrow> string \<Rightarrow> nat \<Rightarrow> string" where
  "clean_loop rooted [] out dotdot = out"
| "clean_loop rooted (c # cs) out dotdot =
     (if c = sep then clean_loop rooted cs out dotdot
      else if c = dot \<and> (cs = [] \<or> hd cs = sep) then clean_loop rooted cs out dotdot
      else if c = dot \<and> hd cs = dot \<and> (tl cs = [] \<or> hd (tl cs) = sep) then
        (if dotdot < length out then
           clean_loop rooted (tl cs) (take (backtrack out dotdot (length out - 1)) out) dotdot
         else if \<not> rooted then
           (let out' = (if 0 < length out then out @ [sep] else out) @ [dot, dot]
            in clean_loop rooted (tl cs) out' (length out'))
         else clean_loop rooted (tl cs) out dotdot)
      else
        (let out' = (if rooted \<and> length out \<noteq> 1 \<or> \<not> rooted \<and> length out \<noteq> 0
                     then out @ [sep] else out)
         in clean_loop rooted (dropWhile (\<lambda>x. x \<noteq> sep) cs)
              (out' @ c # takeWhile (\<lambda>x. x \<noteq> sep) cs) dotdot))"
  by pat_completeness auto
termination
proof (relation "measure (\<lambda>(rooted, p, out, dotdot). length p)", goal_cases)
  case 1
  then show ?case by simp
next
  case (2 rooted c cs out dotdot)
  then show ?case by simp
next
  case (3 rooted c cs out dotdot)
  then show ?case by simp
next
  case (4 rooted c cs out dotdot)
  then show ?case by (cases cs) auto
next
  case (5 rooted c cs out dotdot)
  then show ?case by (cases cs) auto
next
  case (6 rooted c cs out dotdot)
  then show ?case by (cases cs) auto
next
  case (7 rooted c cs out dotdot)
  have "length (dropWhile (\<lambda>x. x \<noteq> sep) cs) \<le> length cs"
    by (rule length_dropWhile_le)
  then show ?case by simp
qed

declare clean_loop.simps [simp del]

definition Clean :: "path \<Rightarrow> path" where
  "Clean p =
     (if p = [] then [dot]
      else
        (let rooted = (hd p = sep);
             out = (if rooted then clean_loop True (tl p) [sep] 1
                    else clean_loop False p [] 0)
         in if out = [] then [dot] else out))"

text \<open>
  \<^verbatim>\<open>filepath.Dir\<close>: everything up to and including the last separator, cleaned.
\<close>

definition Dir :: "path \<Rightarrow> path" where
  "Dir p = Clean (rev (dropWhile (\<lambda>c. c \<noteq> sep) (rev p)))"

text \<open>
  \<^verbatim>\<open>filepath.Base\<close>: the last element of the path, after trailing separators are
  stripped; \<^verbatim>\<open>.\<close> for the empty path and a single separator for a path of separators.
\<close>

definition Base :: "path \<Rightarrow> path" where
  "Base p =
     (if p = [] then [dot]
      else
        (let stripped = dropWhile (\<lambda>c. c = sep) (rev p);
             elem = rev (takeWhile (\<lambda>c. c \<noteq> sep) stripped)
         in if elem = [] then [sep] else elem))"

subsection \<open>The three paths of a candidate (lines 86 to 89 and 106)\<close>

text \<open>
  \<^verbatim>\<open>fileName[:lastDot] + ".mp4"\<close>. The slice panics when \<^verbatim>\<open>lastDot\<close> is \<open>-1\<close>; the driver
  checks that before it calls this function.
\<close>

definition extCorrectedOriginal :: "path \<Rightarrow> path" where
  "extCorrectedOriginal fileName = take (nat (LastIndex fileName)) fileName @ ''.mp4''"

definition processedFileName :: "path \<Rightarrow> path" where
  "processedFileName fileName =
     Dir (extCorrectedOriginal fileName) @ ''/.'' @ Base (extCorrectedOriginal fileName)
       @ ''.processed''"

definition tempFileName :: "path \<Rightarrow> path" where
  "tempFileName fileName = fileName @ ''.transcode-temp''"




subsection \<open>Data\<close>

text \<open>
  \<^verbatim>\<open>models.Metadata\<close> and the progress report are declared outside \<^verbatim>\<open>cmd/root.go\<close>. The
  driver reads one number of each: \<^verbatim>\<open>metadata.Format.SizeInt()\<close>, an \<^verbatim>\<open>int64\<close>, and
  \<^verbatim>\<open>lastReport.TotalSize\<close>, which line 146 converts with \<^verbatim>\<open>int64(...)\<close>. Both are kept as
  64-bit words and compared through \<^term>\<open>sint\<close>, the way the code compares them.
\<close>

record metadata =
  SizeInt :: "64 word"

record report =
  TotalSize :: "64 word"

datatype result_kind = ResultReplaced | ResultKeepOriginal | ResultError

datatype content = Empty | Data nat

text \<open>
  A Go \<^verbatim>\<open>error\<close>, as far as the driver looks at it: \<^verbatim>\<open>nil\<close>, an error for which
  \<^verbatim>\<open>os.IsNotExist\<close> holds, or any other error.
\<close>

datatype error = ErrNil | ErrNotExist | ErrOther

datatype syscall = Stat path | Create path | Remove path | Rename path path

datatype level = Info | Warning | Error

datatype event =
    Log level
  | Session path path
  | Created path error
  | Removed path error
  | Renamed path path error
  | NotifyEnd "metadata option" "report option" result_kind

datatype panic = SliceBoundsOutOfRange

record config =
  extensions :: "string list"
  keep_old :: bool

text \<open>
  The world the driver acts on: the files that exist, the global \<^verbatim>\<open>terminated\<close> flag of
  line 20, and the trace of what the driver has done so far.
\<close>

record world =
  files :: "path \<rightharpoonup> content"
  terminated :: bool
  trace :: "event list"

text \<open>
  What the surroundings do while one candidate is handled. \<open>faults\<close> names the system
  calls that fail with an error other than not-exist (permissions, I/O);
  \<open>ReadFileMetadata\<close> is the metadata probe \<^verbatim>\<open>transcoder.ReadFileMetadata\<close>, which lives
  outside \<^verbatim>\<open>cmd/root.go\<close> and is taken as it answers. The other four fields describe the transcode
  session, see \<open>TranscodeFile\<close> below; \<open>signal_before\<close> says that a termination signal
  is delivered before the loop reaches this candidate.
\<close>

record env =
  faults :: "syscall \<Rightarrow> bool"
  ReadFileMetadata :: "path \<Rightarrow> metadata"
  killed :: bool
  lastReport :: "report option"
  written :: "content option"
  signalled :: bool
  signal_before :: bool

definition emit :: "event \<Rightarrow> world \<Rightarrow> world" where
  "emit ev w = w\<lparr>trace := trace w @ [ev]\<rparr>"

subsection \<open>System calls\<close>

text \<open>
  \<^verbatim>\<open>os.Stat\<close> returns a non-nil \<^verbatim>\<open>FileInfo\<close> exactly when its error is \<^verbatim>\<open>nil\<close>, so the
  model returns the error alone.
\<close>

definition os_Stat :: "env \<Rightarrow> path \<Rightarrow> world \<Rightarrow> error" where
  "os_Stat e p w =
     (if faults e (Stat p) then ErrOther
      else if files w p = None then ErrNotExist else ErrNil)"

definition os_Create :: "env \<Rightarrow> path \<Rightarrow> world \<Rightarrow> error \<times> world" where
  "os_Create e p w =
     (if faults e (Create p) then (ErrOther, emit (Created p ErrOther) w)
      else (ErrNil, emit (Created p ErrNil) (w\<lparr>files := (files w)(p \<mapsto> Empty)\<rparr>)))"

definition os_Remove :: "env \<Rightarrow> path \<Rightarrow> world \<Rightarrow> error \<times> world" where
  "os_Remove e p w =
     (if faults e (Remove p) then (ErrOther, emit (Removed p ErrOther) w)
      else if files w p = None then (ErrNotExist, emit (Removed p ErrNotExist) w)
      else (ErrNil, emit (Removed p ErrNil) (w\<lparr>files := (files w)(p := None)\<rparr>)))"

definition os_Rename :: "env \<Rightarrow> path \<Rightarrow> path \<Rightarrow> world \<Rightarrow> error \<times> world" where
  "os_Rename e src dst w =
     (if faults e (Rename src dst) then (ErrOther, emit (Renamed src dst ErrOther) w)
      else case files w src of
        None \<Rightarrow> (ErrNotExist, emit (Renamed src dst ErrNotExist) w)
      | Some d \<Rightarrow>
          (ErrNil, emit (Renamed src dst ErrNil)
                  (w\<lparr>files := ((files w)(src := None))(dst \<mapsto> d)\<rparr>)))"

subsection \<open>The transcode session\<close>

text \<open>
  Modelled from the spec: \<^verbatim>\<open>transcoder.TranscodeFile\<close> is not part of \<^verbatim>\<open>cmd/root.go\<close>. By
  its contract the session returns \<^verbatim>\<open>(killed, lastReport)\<close>, writes to the temp output
  only and never touches the input. The environment says what it returns, what it leaves
  at the temp path (nothing when \<open>written\<close> is \<open>None\<close>) and whether a termination signal
  arrives while it runs, which sets the flag as the goroutine of \<^verbatim>\<open>Execute\<close> does
  (line 213).
\<close>

definition TranscodeFile ::
  "env \<Rightarrow> path \<Rightarrow> path \<Rightarrow> metadata \<Rightarrow> world \<Rightarrow> (bool \<times> report option) \<times> world" where
  "TranscodeFile e inp outp md w =
     ((killed e, lastReport e),
      emit (Session inp outp)
        (w\<lparr>files := (case written e of None \<Rightarrow> files w | Some d \<Rightarrow> (files w)(outp \<mapsto> d)),
           terminated := (terminated w \<or> signalled e)\<rparr>))"

subsection \<open>The decision after the session (lines 122 to 203)\<close>

definition decide ::
  "config \<Rightarrow> env \<Rightarrow> path \<Rightarrow> metadata \<Rightarrow> bool \<Rightarrow> report option \<Rightarrow> world \<Rightarrow> world" where
  "decide cfg e fileName md kld rep w =
     (if terminated w then emit (NotifyEnd None None ResultError) w
      else
        case os_Create e (processedFileName fileName) w of (err, w1) \<Rightarrow>
        if err \<noteq> ErrNil then emit (Log Error) w1
        else if kld then
          (case os_Remove e (tempFileName fileName) w1 of (err, w2) \<Rightarrow>
           if err \<noteq> ErrNil \<and> err \<noteq> ErrNotExist then emit (Log Error) w2
           else
             (case rep of
                None \<Rightarrow> w2
              | Some r \<Rightarrow>
                  if sint (SizeInt md) < sint (TotalSize r)
                  then emit (NotifyEnd None (Some r) ResultKeepOriginal) (emit (Log Info) w2)
                  else w2))
        else
          (let resultMetadata = ReadFileMetadata e (tempFileName fileName) in
           if keep_old cfg \<and> sint (SizeInt md) < sint (SizeInt resultMetadata) then
             (case os_Remove e (tempFileName fileName) w1 of (err, w2) \<Rightarrow>
              if err \<noteq> ErrNil then emit (Log Error) w2
              else emit (NotifyEnd (Some resultMetadata) None ResultKeepOriginal)
                     (emit (Log Info) w2))
           else
             (case os_Remove e fileName w1 of (err, w2) \<Rightarrow>
              if err \<noteq> ErrNil then emit (Log Error) w2
              else
                (case os_Rename e (tempFileName fileName) (extCorrectedOriginal fileName) w2
                 of (err, w3) \<Rightarrow>
                   if err \<noteq> ErrNil then emit (Log Error) w3
                   else emit (NotifyEnd (Some resultMetadata) None ResultReplaced)
                          (emit (Log Info) w3)))))"

subsection \<open>One candidate (lines 72 to 203)\<close>

text \<open>
  The loop over the configured extensions with its \<^verbatim>\<open>break\<close> is a membership test. A
  \<^verbatim>\<open>continue\<close> returns the world reached so far.
\<close>

definition process :: "config \<Rightarrow> env \<Rightarrow> path \<Rightarrow> world \<Rightarrow> panic + world" where
  "process cfg e fileName w =
     (let ext = Ext fileName;
          valid = (ext \<in> set (extensions cfg))
      in if \<not> valid then Inr w
         else if LastIndex fileName < 0 then Inl SliceBoundsOutOfRange
         else
           (let err = os_Stat e (processedFileName fileName) w
            in if err \<noteq> ErrNil \<and> err \<noteq> ErrNotExist then Inr (emit (Log Error) w)
               else if err = ErrNil then Inr w
               else
                 (let w1 = emit (Log Info) w;
                      md = ReadFileMetadata e fileName;
                      err = os_Stat e (tempFileName fileName) w1
                  in if err \<noteq> ErrNil \<and> err \<noteq> ErrNotExist then Inr (emit (Log Error) w1)
                     else if err = ErrNil then Inr (emit (Log Warning) w1)
                     else
                       (case TranscodeFile e fileName (tempFileName fileName) md w1
                        of ((kld, rep), w2) \<Rightarrow> Inr (decide cfg e fileName md kld rep w2)))))"

subsection \<open>The loop (lines 67 to 204)\<close>

text \<open>
  The list of candidates is what \<^verbatim>\<open>filepath.Glob\<close> returned for the arguments; each
  candidate comes with the behaviour of its surroundings. The flag is read at the top of
  every iteration and ends the whole run.
\<close>

fun Run :: "config \<Rightarrow> (path \<times> env) list \<Rightarrow> world \<Rightarrow> panic + world" where
  "Run cfg [] w = Inr w"
| "Run cfg ((fileName, e) # rest) w =
     (let w0 = w\<lparr>terminated := (terminated w \<or> signal_before e)\<rparr>
      in if terminated w0 then Inr w0
         else case process cfg e fileName w0 of
                Inl p \<Rightarrow> Inl p
              | Inr w' \<Rightarrow> Run cfg rest w')"

definition new_events :: "world \<Rightarrow> world \<Rightarrow> event list" where
  "new_events w w' = drop (length (trace w)) (trace w')"

subsection \<open>Vocabulary of the properties\<close>

text \<open>
  The world in which the session of a candidate returns: the driver has logged the start
  (line 103) and the session has run.
\<close>

definition session_world :: "env \<Rightarrow> path \<Rightarrow> world \<Rightarrow> world" where
  "session_world e fileName w =
     snd (TranscodeFile e fileName (tempFileName fileName) (ReadFileMetadata e fileName)
            (emit (Log Info) w))"

text \<open>
  A candidate is admitted when it passes the filter and both sentinel checks (lines 72 to
  118), which is when the driver runs a session for it.
\<close>

definition admitted :: "config \<Rightarrow> env \<Rightarrow> path \<Rightarrow> world \<Rightarrow> bool" where
  "admitted cfg e fileName w \<longleftrightarrow>
     Ext fileName \<in> set (extensions cfg) \<and> 0 \<le> LastIndex fileName \<and>
     os_Stat e (processedFileName fileName) w = ErrNotExist \<and>
     os_Stat e (tempFileName fileName) w = ErrNotExist"

fun is_notify :: "event \<Rightarrow> bool" where
  "is_notify (NotifyEnd m r k) = True"
| "is_notify ev = False"

fun is_mutation :: "event \<Rightarrow> bool" where
  "is_mutation (Created p r) = True"
| "is_mutation (Removed p r) = True"
| "is_mutation (Renamed p q r) = True"
| "is_mutation ev = False"

fun is_session :: "event \<Rightarrow> bool" where
  "is_session (Session p q) = True"
| "is_session ev = False"

definition original_size :: "env \<Rightarrow> path \<Rightarrow> int" where
  "original_size e fileName = sint (SizeInt (ReadFileMetadata e fileName))"

definition transcoded_size :: "env \<Rightarrow> path \<Rightarrow> int" where
  "transcoded_size e fileName = sint (SizeInt (ReadFileMetadata e (tempFileName fileName)))"

text \<open>A last progress report exists and shows more bytes than the original has.\<close>

definition report_exceeds :: "env \<Rightarrow> path \<Rightarrow> bool" where
  "report_exceeds e fileName \<longleftrightarrow>
     (case lastReport e of
        None \<Rightarrow> False
      | Some r \<Rightarrow> original_size e fileName < sint (TotalSize r))"

text \<open>None of the four mutating calls of the decision is made to fail from outside.\<close>

definition undisturbed :: "env \<Rightarrow> path \<Rightarrow> bool" where
  "undisturbed e fileName \<longleftrightarrow>
     \<not> faults e (Create (processedFileName fileName)) \<and>
     \<not> faults e (Remove (tempFileName fileName)) \<and>
     \<not> faults e (Remove fileName) \<and>
     \<not> faults e (Rename (tempFileName fileName) (extCorrectedOriginal fileName))"


subsection \<open>Concrete runs\<close>

text \<open>
  One candidate, \<^verbatim>\<open>videos/clip.mkv\<close>, on a disk that holds nothing else, with the default
  extensions of line 228. In \<open>calm orig res\<close> no system call fails, the probe reports
  \<open>orig\<close> bytes for the candidate and \<open>res\<close> bytes for any other path, and the session
  completes and leaves a file. \<open>early_exit\<close> is a session that was killed after it
  reported 600 MB against an original of 500 MB, \<open>interrupted\<close> the same session with a
  termination signal arriving while it runs, \<open>stopped\<close> a killed session whose last
  report shows 1 MB. On \<open>marked\<close> the candidate has been replaced and marked processed,
  on \<open>in_progress\<close> its temp file exists, on \<open>both_markers\<close> so does its processed
  marker.
\<close>

definition clip :: path where
  "clip = ''videos/clip.mkv''"

definition default_extensions :: "string list" where
  "default_extensions = [''.mp4'', ''.mkv'', ''.flv'']"

definition keeping :: config where
  "keeping = \<lparr>extensions = default_extensions, keep_old = True\<rparr>"

definition replacing :: config where
  "replacing = \<lparr>extensions = default_extensions, keep_old = False\<rparr>"

definition calm :: "64 word \<Rightarrow> 64 word \<Rightarrow> env" where
  "calm orig res =
     \<lparr>faults = (\<lambda>s. False),
      ReadFileMetadata = (\<lambda>p. \<lparr>SizeInt = (if p = clip then orig else res)\<rparr>),
      killed = False, lastReport = None, written = Some (Data 2),
      signalled = False, signal_before = False\<rparr>"

definition early_exit :: env where
  "early_exit =
     (calm 524288000 0)\<lparr>killed := True, lastReport := Some \<lparr>TotalSize = 629145600\<rparr>\<rparr>"

definition interrupted :: env where
  "interrupted = early_exit\<lparr>signalled := True\<rparr>"


definition rename_fails :: env where
  "rename_fails =
     (calm 524288000 314572800)
       \<lparr>faults := (\<lambda>s. s = Rename ''videos/clip.mkv.transcode-temp'' ''videos/clip.mp4'')\<rparr>"

definition disk :: world where
  "disk = \<lparr>files = [clip \<mapsto> Data 1], terminated = False, trace = []\<rparr>"

definition marked :: world where
  "marked =
     \<lparr>files = [''videos/clip.mp4'' \<mapsto> Data 2, ''videos/.clip.mp4.processed'' \<mapsto> Empty],
      terminated = False, trace = []\<rparr>"

definition in_progress :: world where
  "in_progress =
     \<lparr>files = [clip \<mapsto> Data 1, ''videos/clip.mkv.transcode-temp'' \<mapsto> Data 2],
      terminated = False, trace = []\<rparr>"

definition both_markers :: world where
  "both_markers =
     \<lparr>files = [clip \<mapsto> Data 1, ''videos/clip.mkv.transcode-temp'' \<mapsto> Data 2,
               ''videos/.clip.mp4.processed'' \<mapsto> Empty],
      terminated = False, trace = []\<rparr>"

section \<open>Facts about paths\<close>

lemma takeWhile_upto:
  "c \<notin> set xs \<Longrightarrow> takeWhile (\<lambda>x. x \<noteq> c) (xs @ c # ys) = xs"
  by (induction xs) auto

lemma dropWhile_upto:
  "c \<notin> set xs \<Longrightarrow> dropWhile (\<lambda>x. x \<noteq> c) (xs @ c # ys) = c # ys"
  by (induction xs) auto

lemma dropWhile_rev_last_dot:
  "c \<notin> set e \<Longrightarrow> dropWhile (\<lambda>x. x \<noteq> c) (rev (p @ c # e)) = c # rev p"
  by (simp add: dropWhile_upto)

lemma takeWhile_rev_last:
  "c \<notin> set e \<Longrightarrow> takeWhile (\<lambda>x. x \<noteq> c) (rev (p @ c # e)) = rev e"
  by (simp add: takeWhile_upto)

lemma LastIndex_append_dot: "dot \<notin> set e \<Longrightarrow> LastIndex (p @ dot # e) = int (length p)"
  using dropWhile_rev_last_dot [of dot e p] by (simp add: LastIndex_def)

lemma LastIndex_neg: "LastIndex s < 0 \<longleftrightarrow> dot \<notin> set s"
  by (auto simp: LastIndex_def dest: hd_dropWhile)

lemma last_dot_split:
  assumes "0 \<le> LastIndex f"
  obtains e where "dot \<notin> set e" and "f = take (nat (LastIndex f)) f @ dot # e"
proof -
  from assms have "dot \<in> set f" using LastIndex_neg [of f] by auto
  then obtain p e where f: "f = p @ dot # e" and e: "dot \<notin> set e"
    by (meson split_list_last)
  from e have "LastIndex f = int (length p)" unfolding f by (rule LastIndex_append_dot)
  then have "take (nat (LastIndex f)) f = p" by (simp add: f)
  with f e that show thesis by metis
qed

lemma extCorrectedOriginal_append:
  "dot \<notin> set e \<Longrightarrow> extCorrectedOriginal (p @ dot # e) = p @ ''.mp4''"
  by (simp add: extCorrectedOriginal_def LastIndex_append_dot)

lemma extCorrectedOriginal_idem:
  "extCorrectedOriginal (extCorrectedOriginal f) = extCorrectedOriginal f"
proof -
  have "extCorrectedOriginal (take (nat (LastIndex f)) f @ dot # ''mp4'') =
          take (nat (LastIndex f)) f @ ''.mp4''"
    by (rule extCorrectedOriginal_append) simp
  then show ?thesis by (simp add: extCorrectedOriginal_def)
qed

lemma processedFileName_idem:
  "processedFileName (extCorrectedOriginal f) = processedFileName f"
  by (simp add: processedFileName_def extCorrectedOriginal_idem)

lemma Base_last_elem:
  "sep \<notin> set n \<Longrightarrow> n \<noteq> [] \<Longrightarrow> Base (d @ sep # n) = n"
  by (cases n rule: rev_cases) (auto simp: Base_def takeWhile_upto)

lemma Base_no_sep: "p \<noteq> [] \<Longrightarrow> last p \<noteq> sep \<Longrightarrow> sep \<notin> set (Base p)"
  by (cases p rule: rev_cases) (auto simp: Base_def dest: set_takeWhileD)

lemma tempFileName_neq: "tempFileName f \<noteq> f"
  by (simp add: tempFileName_def)

lemma processed_neq_temp: "processedFileName f \<noteq> tempFileName g"
proof
  assume "processedFileName f = tempFileName g"
  then have "last (processedFileName f) = last (tempFileName g)" by simp
  then show False by (simp add: processedFileName_def tempFileName_def)
qed

lemma extCorrected_neq_temp: "extCorrectedOriginal f \<noteq> tempFileName g"
proof
  assume "extCorrectedOriginal f = tempFileName g"
  then have "last (extCorrectedOriginal f) = last (tempFileName g)" by simp
  then show False by (simp add: extCorrectedOriginal_def tempFileName_def)
qed

lemma extCorrected_neq_processed: "extCorrectedOriginal f \<noteq> processedFileName g"
proof
  assume "extCorrectedOriginal f = processedFileName g"
  then have "last (extCorrectedOriginal f) = last (processedFileName g)" by simp
  then show False by (simp add: extCorrectedOriginal_def processedFileName_def)
qed

lemma last_dot_unique:
  assumes "dot \<notin> set e" "dot \<notin> set e'" "p @ dot # e = p' @ dot # e'"
  shows "p = p' \<and> e = e'"
proof -
  have "takeWhile (\<lambda>x. x \<noteq> dot) (rev (p @ dot # e)) = rev e"
    using assms(1) by (rule takeWhile_rev_last)
  moreover have "takeWhile (\<lambda>x. x \<noteq> dot) (rev (p' @ dot # e')) = rev e'"
    using assms(2) by (rule takeWhile_rev_last)
  ultimately have "e = e'" using assms(3) by simp
  with assms(3) show ?thesis by simp
qed

lemma processed_neq_file:
  assumes "0 \<le> LastIndex f"
  shows "processedFileName f \<noteq> f"
proof
  assume eq: "processedFileName f = f"
  define x where "x = extCorrectedOriginal f"
  define p where "p = take (nat (LastIndex f)) f"
  from assms obtain e where e: "dot \<notin> set e" and f: "f = p @ dot # e"
    unfolding p_def by (rule last_dot_split)
  have x: "x = p @ ''.mp4''" by (simp add: x_def p_def extCorrectedOriginal_def)
  have "f = (Dir x @ ''/.'' @ Base x) @ dot # ''processed''"
    using eq by (simp add: processedFileName_def x_def)
  with f have "p @ dot # e = (Dir x @ ''/.'' @ Base x) @ dot # ''processed''" by simp
  with e have p: "p = Dir x @ ''/.'' @ Base x"
    using last_dot_unique [of e "''processed''" p "Dir x @ ''/.'' @ Base x"] by simp
  have "sep \<notin> set (Base x)" by (rule Base_no_sep) (simp_all add: x)
  then have "Base ((Dir x) @ sep # (dot # Base x @ ''.mp4'')) = dot # Base x @ ''.mp4''"
    by (intro Base_last_elem) simp_all
  moreover have "x = (Dir x) @ sep # (dot # Base x @ ''.mp4'')"
    using x p by simp
  ultimately have "Base x = dot # Base x @ ''.mp4''" by simp
  then have "length (Base x) = length (dot # Base x @ ''.mp4'')" by simp
  then show False by simp
qed


















section \<open>Facts about one candidate\<close>

lemma os_Stat_emit [simp]: "os_Stat e p (emit ev w) = os_Stat e p w"
  by (simp add: os_Stat_def emit_def)

lemma process_admitted:
  assumes "admitted cfg e fileName w"
  shows "process cfg e fileName w =
           Inr (decide cfg e fileName (ReadFileMetadata e fileName) (killed e) (lastReport e)
                  (session_world e fileName w))"
  using assms
  by (simp add: admitted_def process_def session_world_def TranscodeFile_def Let_def)

lemma process_not_admitted:
  assumes "\<not> admitted cfg e fileName w"
  shows "process cfg e fileName w \<in>
           {Inl SliceBoundsOutOfRange, Inr w, Inr (emit (Log Error) w),
            Inr (emit (Log Warning) (emit (Log Info) w)),
            Inr (emit (Log Error) (emit (Log Info) w))}"
proof -
  have "os_Stat e p w = ErrNil \<or> os_Stat e p w = ErrNotExist \<or> os_Stat e p w = ErrOther" for p
    by (cases "os_Stat e p w") simp_all
  from this [of "processedFileName fileName"] this [of "tempFileName fileName"] assms
  show ?thesis
    by (auto simp: admitted_def process_def Let_def)
qed

lemma files_session_world:
  "files (session_world e fileName w) =
     (case written e of None \<Rightarrow> files w | Some d \<Rightarrow> (files w)(tempFileName fileName \<mapsto> d))"
  by (simp add: session_world_def TranscodeFile_def emit_def split: option.split)

lemma terminated_session_world:
  "terminated (session_world e fileName w) = (terminated w \<or> signalled e)"
  by (simp add: session_world_def TranscodeFile_def emit_def)

lemma trace_session_world:
  "trace (session_world e fileName w) =
     trace w @ [Log Info, Session fileName (tempFileName fileName)]"
  by (simp add: session_world_def TranscodeFile_def emit_def)

lemma new_events_append: "trace w' = trace w @ evs \<Longrightarrow> new_events w w' = evs"
  by (simp add: new_events_def)

lemmas os_defs = os_Create_def os_Remove_def os_Rename_def emit_def

lemma decide_trace_prefix:
  "\<exists>evs. trace (decide cfg e f md k r w) = trace w @ evs"
  by (auto simp: decide_def os_defs Let_def split: option.splits)


lemma admitted_paths:
  assumes "admitted cfg e fileName w"
  shows "processedFileName fileName \<noteq> fileName"
    and "files w (tempFileName fileName) = None"
    and "files w (processedFileName fileName) = None"
  using assms
  by (auto simp: admitted_def processed_neq_file os_Stat_def split: if_splits)

lemmas path_neqs =
  tempFileName_neq tempFileName_neq [symmetric]
  processed_neq_temp processed_neq_temp [symmetric]
  extCorrected_neq_temp extCorrected_neq_temp [symmetric]
  extCorrected_neq_processed extCorrected_neq_processed [symmetric]

lemma not_admitted_quiet:
  assumes "\<not> admitted cfg e fileName w"
  shows "process cfg e fileName w = Inl SliceBoundsOutOfRange \<or>
         (\<exists>w'. process cfg e fileName w = Inr w' \<and> files w' = files w \<and>
               terminated w' = terminated w \<and>
               (\<forall>ev \<in> set (new_events w w'). \<not> is_session ev \<and> \<not> is_mutation ev \<and> \<not> is_notify ev))"
  using process_not_admitted [OF assms]
  by (auto simp: new_events_def emit_def)

text \<open>A session is run for a candidate exactly when the candidate is admitted.\<close>

lemma session_iff_admitted:
  "(\<exists>w'. process cfg e fileName w = Inr w' \<and>
         Session fileName (tempFileName fileName) \<in> set (new_events w w')) \<longleftrightarrow>
   admitted cfg e fileName w"
proof
  assume "\<exists>w'. process cfg e fileName w = Inr w' \<and>
         Session fileName (tempFileName fileName) \<in> set (new_events w w')"
  then obtain w' where w': "process cfg e fileName w = Inr w'"
    "Session fileName (tempFileName fileName) \<in> set (new_events w w')"
    by blast
  show "admitted cfg e fileName w"
  proof (rule ccontr)
    assume "\<not> admitted cfg e fileName w"
    from not_admitted_quiet [OF this] w' show False by auto
  qed
next
  assume adm: "admitted cfg e fileName w"
  let ?sw = "session_world e fileName w"
  let ?w' = "decide cfg e fileName (ReadFileMetadata e fileName) (killed e) (lastReport e) ?sw"
  obtain evs where "trace ?w' = trace ?sw @ evs"
    using decide_trace_prefix by blast
  then have "new_events w ?w' = [Log Info, Session fileName (tempFileName fileName)] @ evs"
    by (intro new_events_append) (simp add: trace_session_world)
  with process_admitted [OF adm]
  show "\<exists>w'. process cfg e fileName w = Inr w' \<and>
         Session fileName (tempFileName fileName) \<in> set (new_events w w')"
    by simp
qed

lemma marked_not_admitted:
  "files w (processedFileName fileName) \<noteq> None \<or> files w (tempFileName fileName) \<noteq> None
     \<Longrightarrow> \<not> admitted cfg e fileName w"
  by (auto simp: admitted_def os_Stat_def split: if_splits)

lemma skip_when_marked:
  assumes "files w (processedFileName fileName) \<noteq> None" and "0 \<le> LastIndex fileName"
  shows "\<exists>w'. process cfg e fileName w = Inr w' \<and> files w' = files w \<and>
           terminated w' = terminated w \<and>
           (\<forall>ev \<in> set (new_events w w'). \<not> is_session ev \<and> \<not> is_mutation ev \<and> \<not> is_notify ev)"
proof -
  from assms(1) have n: "\<not> admitted cfg e fileName w" by (simp add: marked_not_admitted)
  have "process cfg e fileName w \<noteq> Inl SliceBoundsOutOfRange"
    using assms by (auto simp: process_def Let_def os_Stat_def)
  with not_admitted_quiet [OF n] show ?thesis by blast
qed

lemma decide_replaced:
  assumes "trace (decide cfg e f md k r w) = trace w @ evs"
    and "NotifyEnd m rr ResultReplaced \<in> set evs"
    and "0 \<le> LastIndex f"
  shows "files (decide cfg e f md k r w) (processedFileName f) = Some Empty \<and>
         files (decide cfg e f md k r w) (tempFileName f) = None \<and>
         files (decide cfg e f md k r w) (extCorrectedOriginal f) \<noteq> None \<and>
         \<not> terminated (decide cfg e f md k r w)"
  using assms processed_neq_file [OF assms(3)]
  by (auto simp: decide_def os_defs Let_def path_neqs split: option.splits if_splits)

lemma LastIndex_extCorrected: "0 \<le> LastIndex (extCorrectedOriginal f)"
  using LastIndex_append_dot [of "''mp4''" "take (nat (LastIndex f)) f"]
  by (simp add: extCorrectedOriginal_def)

lemma skip_when_marked_trace:
  assumes "files w (processedFileName fileName) \<noteq> None" and "0 \<le> LastIndex fileName"
  shows "\<exists>w' evs. process cfg e fileName w = Inr w' \<and> files w' = files w \<and>
           terminated w' = terminated w \<and> trace w' = trace w @ evs \<and>
           (\<forall>ev \<in> set evs. \<not> is_session ev \<and> \<not> is_mutation ev)"
proof -
  from assms(1) have n: "\<not> admitted cfg e fileName w" by (simp add: marked_not_admitted)
  have "process cfg e fileName w \<noteq> Inl SliceBoundsOutOfRange"
    using assms by (auto simp: process_def Let_def os_Stat_def)
  with process_not_admitted [OF n]
  consider "process cfg e fileName w = Inr w"
    | "process cfg e fileName w = Inr (emit (Log Error) w)"
    | "process cfg e fileName w = Inr (emit (Log Warning) (emit (Log Info) w))"
    | "process cfg e fileName w = Inr (emit (Log Error) (emit (Log Info) w))"
    by auto
  then show ?thesis
  proof cases
    case 1
    then show ?thesis by simp
  next
    case 2
    then show ?thesis by (simp add: emit_def)
  next
    case 3
    then show ?thesis by (simp add: emit_def)
  next
    case 4
    then show ?thesis by (simp add: emit_def)
  qed
qed

lemma Run_marked:
  assumes "files w (processedFileName fileName) \<noteq> None" and "0 \<le> LastIndex fileName"
    and "\<forall>c \<in> set cands. fst c = fileName"
  shows "\<exists>w2 evs. Run cfg cands w = Inr w2 \<and> files w2 = files w \<and>
           trace w2 = trace w @ evs \<and>
           (\<forall>ev \<in> set evs. \<not> is_session ev \<and> \<not> is_mutation ev)"
  using assms
proof (induction cands arbitrary: w)
  case Nil
  then show ?case by simp
next
  case (Cons c cands)
  obtain e where c: "c = (fileName, e)"
    using Cons.prems(3) by (cases c) simp
  let ?w0 = "w\<lparr>terminated := (terminated w \<or> signal_before e)\<rparr>"
  show ?case
  proof (cases "terminated ?w0")
    case True
    then have "Run cfg (c # cands) w = Inr ?w0" by (simp add: c)
    then show ?thesis by simp
  next
    case False
    have "files ?w0 (processedFileName fileName) \<noteq> None"
      using Cons.prems(1) by simp
    from skip_when_marked_trace [OF this Cons.prems(2), of cfg e]
    obtain w' evs where p: "process cfg e fileName ?w0 = Inr w'" and f: "files w' = files w"
      and t: "trace w' = trace w @ evs"
      and q: "\<forall>ev \<in> set evs. \<not> is_session ev \<and> \<not> is_mutation ev"
      by auto
    have "files w' (processedFileName fileName) \<noteq> None"
      using Cons.prems(1) f by simp
    from Cons.IH [OF this Cons.prems(2)] Cons.prems(3)
    obtain w2 evs2 where r: "Run cfg cands w' = Inr w2" and f2: "files w2 = files w'"
      and t2: "trace w2 = trace w' @ evs2"
      and q2: "\<forall>ev \<in> set evs2. \<not> is_session ev \<and> \<not> is_mutation ev"
      by auto
    from False p r have "Run cfg (c # cands) w = Inr w2" by (simp add: c)
    moreover have "trace w2 = trace w @ (evs @ evs2)" using t t2 by simp
    moreover have "\<forall>ev \<in> set (evs @ evs2). \<not> is_session ev \<and> \<not> is_mutation ev"
      using q q2 by auto
    ultimately show ?thesis using f f2 by metis
  qed
qed

lemma os_Stat_trace [simp]: "os_Stat e p (w\<lparr>trace := t\<rparr>) = os_Stat e p w"
  by (simp add: os_Stat_def)


section \<open>The claims\<close>

subsection \<open>C1: the keep-old decision\<close>

text \<open>
  Claim C1, as the code has it. A candidate is admitted, its session completes (not
  killed) with the termination flag unset, keep-old is enabled and no call of the decision
  fails. Then the driver keeps the original exactly when the transcoded size is strictly
  greater than the original size: it creates the processed marker, deletes the temp
  output, leaves the original as it was and emits \<open>ResultKeepOriginal\<close>. Otherwise, a
  tie included, it deletes the original, renames the temp output to the canonical path
  and emits \<open>ResultReplaced\<close>.
\<close>

theorem keep_old_decision:
  assumes adm: "admitted cfg e fileName w"
    and run: "\<not> terminated (session_world e fileName w)" "\<not> killed e"
    and keep: "keep_old cfg"
    and ok: "undisturbed e fileName" "files w fileName \<noteq> None" "written e = Some d"
  shows "\<exists>w'. process cfg e fileName w = Inr w' \<and>
           (if original_size e fileName < transcoded_size e fileName
            then new_events w w' =
                   [Log Info, Session fileName (tempFileName fileName),
                    Created (processedFileName fileName) ErrNil,
                    Removed (tempFileName fileName) ErrNil, Log Info,
                    NotifyEnd (Some (ReadFileMetadata e (tempFileName fileName))) None
                      ResultKeepOriginal] \<and>
                 files w' (tempFileName fileName) = None \<and>
                 files w' fileName = files w fileName
            else new_events w w' =
                   [Log Info, Session fileName (tempFileName fileName),
                    Created (processedFileName fileName) ErrNil,
                    Removed fileName ErrNil,
                    Renamed (tempFileName fileName) (extCorrectedOriginal fileName) ErrNil,
                    Log Info,
                    NotifyEnd (Some (ReadFileMetadata e (tempFileName fileName))) None
                      ResultReplaced] \<and>
                 files w' (tempFileName fileName) = None \<and>
                 files w' (extCorrectedOriginal fileName) = Some d \<and>
                 (extCorrectedOriginal fileName \<noteq> fileName \<longrightarrow> files w' fileName = None))"
proof -
  let ?sw = "session_world e fileName w"
  let ?t = "tempFileName fileName"
  let ?m = "processedFileName fileName"
  let ?x = "extCorrectedOriginal fileName"
  let ?w' = "decide cfg e fileName (ReadFileMetadata e fileName) (killed e) (lastReport e) ?sw"
  let ?kept = "[Log Info, Session fileName ?t, Created ?m ErrNil, Removed ?t ErrNil, Log Info,
    NotifyEnd (Some (ReadFileMetadata e ?t)) None ResultKeepOriginal]"
  let ?replaced = "[Log Info, Session fileName ?t, Created ?m ErrNil, Removed fileName ErrNil,
    Renamed ?t ?x ErrNil, Log Info,
    NotifyEnd (Some (ReadFileMetadata e ?t)) None ResultReplaced]"
  note pn = admitted_paths(1) [OF adm]
  have p: "process cfg e fileName w = Inr ?w'"
    using adm by (rule process_admitted)
  show ?thesis
  proof (cases "original_size e fileName < transcoded_size e fileName")
    case True
    have "trace ?w' = trace w @ ?kept"
      using True run keep ok
      by (simp add: decide_def os_defs undisturbed_def original_size_def transcoded_size_def
            files_session_world trace_session_world path_neqs)
    then have ev: "new_events w ?w' = ?kept"
      by (rule new_events_append)
    have "files ?w' ?t = None \<and> files ?w' fileName = files w fileName"
      using True run keep ok pn
      by (simp add: decide_def os_defs undisturbed_def original_size_def transcoded_size_def
            files_session_world path_neqs)
    with p ev True show ?thesis by simp
  next
    case False
    have "trace ?w' = trace w @ ?replaced"
      using False run keep ok pn
      by (simp add: decide_def os_defs undisturbed_def original_size_def transcoded_size_def
            files_session_world trace_session_world path_neqs)
    then have ev: "new_events w ?w' = ?replaced"
      by (rule new_events_append)
    have "files ?w' ?t = None \<and> files ?w' ?x = Some d \<and>
          (?x \<noteq> fileName \<longrightarrow> files ?w' fileName = None)"
      using False run keep ok pn
      by (simp add: decide_def os_defs undisturbed_def original_size_def transcoded_size_def
            files_session_world path_neqs)
    with p ev False show ?thesis by simp
  qed
qed

text \<open>
  The theorem at a run where the transcoded file is one byte larger than the original:
  the original is kept.
\<close>

theorem keep_old_decision_witness:
  "admitted keeping (calm 100 101) clip disk \<and>
   \<not> terminated (session_world (calm 100 101) clip disk) \<and>
   \<not> killed (calm 100 101) \<and> keep_old keeping \<and>
   undisturbed (calm 100 101) clip \<and> files disk clip \<noteq> None \<and>
   written (calm 100 101) = Some (Data 2) \<and>
   (\<exists>w'. process keeping (calm 100 101) clip disk = Inr w' \<and>
         files w' (tempFileName clip) = None \<and> files w' clip = files disk clip)"
proof -
  have h1: "admitted keeping (calm 100 101) clip disk" by code_simp
  have h2: "\<not> terminated (session_world (calm 100 101) clip disk)" by code_simp
  have h3: "\<not> killed (calm 100 101)" by code_simp
  have h4: "keep_old keeping" by code_simp
  have h5: "undisturbed (calm 100 101) clip" by code_simp
  have h6: "files disk clip \<noteq> None" by code_simp
  have h7: "written (calm 100 101) = Some (Data 2)" by code_simp
  have c: "original_size (calm 100 101) clip < transcoded_size (calm 100 101) clip"
    by code_simp
  from keep_old_decision [OF h1 h2 h3 h4 h5 h6 h7] c
  have "\<exists>w'. process keeping (calm 100 101) clip disk = Inr w' \<and>
         files w' (tempFileName clip) = None \<and> files w' clip = files disk clip"
    by auto
  with h1 h2 h3 h4 h5 h6 h7 show ?thesis by blast
qed

text \<open>
  Claim C1 as stated fails at a tie. Original and transcoded file both have 100 bytes,
  keep-old is enabled and the session completes: line 163 compares with \<^verbatim>\<open>>\<close>, so the
  driver deletes the original and emits \<open>ResultReplaced\<close>.
\<close>

theorem tie_replaces_original:
  "keep_old keeping \<and> \<not> killed (calm 100 100) \<and>
   \<not> terminated (session_world (calm 100 100) clip disk) \<and>
   transcoded_size (calm 100 100) clip = original_size (calm 100 100) clip \<and>
   new_events disk (projr (process keeping (calm 100 100) clip disk)) =
     [Log Info, Session clip ''videos/clip.mkv.transcode-temp'',
      Created ''videos/.clip.mp4.processed'' ErrNil,
      Removed clip ErrNil,
      Renamed ''videos/clip.mkv.transcode-temp'' ''videos/clip.mp4'' ErrNil,
      Log Info, NotifyEnd (Some \<lparr>SizeInt = 100\<rparr>) None ResultReplaced] \<and>
   files (projr (process keeping (calm 100 100) clip disk)) clip = None"
  by code_simp

subsection \<open>C2: an encode interrupted by a termination request\<close>

text \<open>
  Claim C2, as the code has it. When the termination flag is set while the session of an
  admitted candidate runs, the driver attempts no deletion, rename or creation for that
  file: whatever the session wrote stays at the temp path, and the original is neither
  deleted nor renamed.
\<close>

theorem interrupted_encode_keeps_files:
  assumes "admitted cfg e fileName w"
    and "terminated (session_world e fileName w)"
  shows "\<exists>w'. process cfg e fileName w = Inr w' \<and>
           files w' (tempFileName fileName) = written e \<and>
           files w' fileName = files w fileName \<and>
           (\<forall>ev \<in> set (new_events w w'). \<not> is_mutation ev)"
proof -
  let ?w' = "emit (NotifyEnd None None ResultError) (session_world e fileName w)"
  have "process cfg e fileName w = Inr ?w'"
    using assms by (simp add: process_admitted decide_def)
  moreover have "files ?w' (tempFileName fileName) = written e"
    using admitted_paths(2) [OF assms(1)]
    by (simp add: emit_def files_session_world split: option.split)
  moreover have "files ?w' fileName = files w fileName"
    by (simp add: emit_def files_session_world path_neqs split: option.split)
  moreover have "new_events w ?w' =
      [Log Info, Session fileName (tempFileName fileName), NotifyEnd None None ResultError]"
    by (rule new_events_append) (simp add: emit_def trace_session_world)
  ultimately show ?thesis by simp
qed

theorem interrupted_encode_keeps_files_witness:
  "admitted keeping interrupted clip disk \<and>
   terminated (session_world interrupted clip disk) \<and>
   (\<exists>w'. process keeping interrupted clip disk = Inr w' \<and>
         files w' (tempFileName clip) = Some (Data 2) \<and>
         files w' clip = Some (Data 1))"
proof -
  have h1: "admitted keeping interrupted clip disk" by code_simp
  have h2: "terminated (session_world interrupted clip disk)" by code_simp
  have w: "written interrupted = Some (Data 2)" by code_simp
  have f: "files disk clip = Some (Data 1)" by code_simp
  from interrupted_encode_keeps_files [OF h1 h2]
  have "\<exists>w'. process keeping interrupted clip disk = Inr w' \<and>
         files w' (tempFileName clip) = Some (Data 2) \<and>
         files w' clip = Some (Data 1)"
    unfolding w f by blast
  with h1 h2 show ?thesis by blast
qed

text \<open>
  Claim C2 as stated fails: a termination signal arrives while the session of the
  candidate runs, and after the driver has handled the file the temp output is still
  there. The driver has removed nothing.
\<close>

theorem interrupted_encode_leaves_temp:
  "signalled interrupted \<and> terminated (session_world interrupted clip disk) \<and>
   files (projr (process keeping interrupted clip disk)) ''videos/clip.mkv.transcode-temp'' =
     Some (Data 2) \<and>
   filter is_mutation (new_events disk (projr (process keeping interrupted clip disk))) = []"
  by code_simp

subsection \<open>C3: a killed session and its last report\<close>

text \<open>
  Claim C3, as the code has it. The comparison with the last progress report is made
  when the session returns killed while the termination flag is unset. If then the
  marker creation and the deletion of the temp output are not made to fail, the temp
  output is gone, the original is untouched, and the driver emits \<open>ResultKeepOriginal\<close>
  with the report exactly when a last report exists whose size is strictly greater than
  the original's; otherwise it emits nothing for the file. When the session returns with
  the termination flag set, the driver emits \<open>ResultError\<close> and nothing else, whatever
  the report shows, and what the session wrote stays at the temp path.
\<close>

theorem killed_session_outcome:
  assumes adm: "admitted cfg e fileName w"
  shows "\<exists>w'. process cfg e fileName w = Inr w' \<and>
           (\<not> terminated (session_world e fileName w) \<and> killed e \<and>
            \<not> faults e (Create (processedFileName fileName)) \<and>
            \<not> faults e (Remove (tempFileName fileName)) \<longrightarrow>
              files w' (tempFileName fileName) = None \<and>
              files w' fileName = files w fileName \<and>
              filter is_notify (new_events w w') =
                (if report_exceeds e fileName
                 then [NotifyEnd None (lastReport e) ResultKeepOriginal] else [])) \<and>
           (terminated (session_world e fileName w) \<longrightarrow>
              files w' (tempFileName fileName) = written e \<and>
              files w' fileName = files w fileName \<and>
              filter is_notify (new_events w w') = [NotifyEnd None None ResultError])"
proof -
  let ?sw = "session_world e fileName w"
  let ?w' = "decide cfg e fileName (ReadFileMetadata e fileName) (killed e) (lastReport e) ?sw"
  let ?out = "if report_exceeds e fileName
              then [NotifyEnd None (lastReport e) ResultKeepOriginal] else []"
  note pn = admitted_paths [OF adm]
  have p: "process cfg e fileName w = Inr ?w'"
    using adm by (rule process_admitted)
  have k: "files ?w' (tempFileName fileName) = None \<and>
      files ?w' fileName = files w fileName \<and>
      filter is_notify (new_events w ?w') = ?out"
    if run: "\<not> terminated ?sw" "killed e"
      and ok: "\<not> faults e (Create (processedFileName fileName))"
        "\<not> faults e (Remove (tempFileName fileName))"
  proof -
    have f: "files ?w' (tempFileName fileName) = None \<and> files ?w' fileName = files w fileName"
      using run ok pn
      by (simp add: decide_def os_defs files_session_world path_neqs split: option.split)
    have "\<exists>evs. trace ?w' = trace w @ evs \<and> filter is_notify evs = ?out"
      using run ok
      by (simp add: decide_def os_defs report_exceeds_def original_size_def
            trace_session_world split: option.split)
    then obtain evs where "trace ?w' = trace w @ evs" and n: "filter is_notify evs = ?out"
      by blast
    then have "new_events w ?w' = evs" by (simp add: new_events_append)
    with f n show ?thesis by simp
  qed
  have t: "files ?w' (tempFileName fileName) = written e \<and>
      files ?w' fileName = files w fileName \<and>
      filter is_notify (new_events w ?w') = [NotifyEnd None None ResultError]"
    if flag: "terminated ?sw"
  proof -
    have d: "?w' = emit (NotifyEnd None None ResultError) ?sw"
      using flag by (simp add: decide_def)
    have "trace ?w' = trace w @
        [Log Info, Session fileName (tempFileName fileName), NotifyEnd None None ResultError]"
      unfolding d by (simp add: emit_def trace_session_world)
    then have "new_events w ?w' =
        [Log Info, Session fileName (tempFileName fileName), NotifyEnd None None ResultError]"
      by (rule new_events_append)
    moreover have "files ?w' (tempFileName fileName) = written e"
      unfolding d using pn(2) by (simp add: emit_def files_session_world split: option.split)
    moreover have "files ?w' fileName = files w fileName"
      unfolding d by (simp add: emit_def files_session_world path_neqs split: option.split)
    ultimately show ?thesis by simp
  qed
  from p k t show ?thesis by blast
qed

text \<open>
  The theorem at a session killed with the flag unset after a report of 600 MB against
  500 MB, and at the same session with a termination signal arriving while it runs.
\<close>

theorem killed_session_outcome_witness:
  "admitted keeping early_exit clip disk \<and>
   \<not> terminated (session_world early_exit clip disk) \<and> killed early_exit \<and>
   \<not> faults early_exit (Create (processedFileName clip)) \<and>
   \<not> faults early_exit (Remove (tempFileName clip)) \<and>
   (\<exists>w'. process keeping early_exit clip disk = Inr w' \<and>
         files w' (tempFileName clip) = None \<and>
         files w' clip = Some (Data 1) \<and>
         filter is_notify (new_events disk w') =
           [NotifyEnd None (Some \<lparr>TotalSize = 629145600\<rparr>) ResultKeepOriginal]) \<and>
   admitted keeping interrupted clip disk \<and>
   terminated (session_world interrupted clip disk) \<and>
   (\<exists>w'. process keeping interrupted clip disk = Inr w' \<and>
         files w' (tempFileName clip) = Some (Data 2) \<and>
         filter is_notify (new_events disk w') = [NotifyEnd None None ResultError])"
proof -
  have h1: "admitted keeping early_exit clip disk" by code_simp
  have h2: "\<not> terminated (session_world early_exit clip disk)" by code_simp
  have h3: "killed early_exit" by code_simp
  have h4: "\<not> faults early_exit (Create (processedFileName clip))" by code_simp
  have h5: "\<not> faults early_exit (Remove (tempFileName clip))" by code_simp
  have r: "lastReport early_exit = Some \<lparr>TotalSize = 629145600\<rparr>" by code_simp
  have c: "report_exceeds early_exit clip" by code_simp
  have f: "files disk clip = Some (Data 1)" by code_simp
  have g1: "admitted keeping interrupted clip disk" by code_simp
  have g2: "terminated (session_world interrupted clip disk)" by code_simp
  have wr: "written interrupted = Some (Data 2)" by code_simp
  from killed_session_outcome [OF h1] h2 h3 h4 h5 c
  have a: "\<exists>w'. process keeping early_exit clip disk = Inr w' \<and>
         files w' (tempFileName clip) = None \<and>
         files w' clip = Some (Data 1) \<and>
         filter is_notify (new_events disk w') =
           [NotifyEnd None (Some \<lparr>TotalSize = 629145600\<rparr>) ResultKeepOriginal]"
    unfolding r f by auto
  from killed_session_outcome [OF g1] g2
  have b: "\<exists>w'. process keeping interrupted clip disk = Inr w' \<and>
         files w' (tempFileName clip) = Some (Data 2) \<and>
         filter is_notify (new_events disk w') = [NotifyEnd None None ResultError]"
    unfolding wr by auto
  from h1 h2 h3 h4 h5 a g1 g2 b show ?thesis by blast
qed

text \<open>
  Claim C3 as stated fails: the termination signal arrives while the session runs, the
  last report shows 600 MB against an original of 500 MB, and the outcome is
  \<open>ResultError\<close>, not \<open>ResultKeepOriginal\<close>; the temp output is not deleted.
\<close>

theorem interrupted_encode_reports_error:
  "signalled interrupted \<and> killed interrupted \<and>
   lastReport interrupted = Some \<lparr>TotalSize = 629145600\<rparr> \<and>
   original_size interrupted clip = 524288000 \<and>
   filter is_notify (new_events disk (projr (process keeping interrupted clip disk))) =
     [NotifyEnd None None ResultError] \<and>
   files (projr (process keeping interrupted clip disk)) (tempFileName clip) = Some (Data 2)"
  by code_simp

subsection \<open>C4: the termination flag after the session\<close>

text \<open>
  Claim C4. When the session of an admitted candidate returns while the termination flag
  is set, the driver emits \<open>ResultError\<close> and does nothing else: after the session the
  trace holds that one notification, and the files are the ones the session left. No
  temp file is deleted, the original is neither deleted nor renamed, and no processed
  marker is created.
\<close>

theorem terminated_session_reports_error:
  assumes "admitted cfg e fileName w"
    and "terminated (session_world e fileName w)"
  shows "\<exists>w'. process cfg e fileName w = Inr w' \<and>
           new_events w w' =
             [Log Info, Session fileName (tempFileName fileName),
              NotifyEnd None None ResultError] \<and>
           files w' = files (session_world e fileName w)"
proof -
  let ?w' = "emit (NotifyEnd None None ResultError) (session_world e fileName w)"
  have "process cfg e fileName w = Inr ?w'"
    using assms by (simp add: process_admitted decide_def)
  moreover have "new_events w ?w' =
      [Log Info, Session fileName (tempFileName fileName), NotifyEnd None None ResultError]"
    by (rule new_events_append) (simp add: emit_def trace_session_world)
  moreover have "files ?w' = files (session_world e fileName w)"
    by (simp add: emit_def)
  ultimately show ?thesis by blast
qed

theorem terminated_session_reports_error_witness:
  "admitted keeping interrupted clip disk \<and>
   terminated (session_world interrupted clip disk) \<and>
   (\<exists>w'. process keeping interrupted clip disk = Inr w' \<and>
         new_events disk w' =
           [Log Info, Session clip (tempFileName clip), NotifyEnd None None ResultError] \<and>
         files w' = files (session_world interrupted clip disk))"
proof -
  have h1: "admitted keeping interrupted clip disk" by code_simp
  have h2: "terminated (session_world interrupted clip disk)" by code_simp
  from terminated_session_reports_error [OF h1 h2] h1 h2 show ?thesis by blast
qed

subsection \<open>C5: how many results a file gets\<close>




subsection \<open>C6: candidates with a marker\<close>

text \<open>
  Claim C6, as the code has it. A candidate whose processed marker exists, or whose temp
  file exists, gets no session. The slice of line 87 panics when the allow-list holds
  the empty extension and the path has no dot; in every other case the candidate is
  skipped: the files and the flag stay as they are, and the trace of the candidate is
  empty when the extension is not allowed or the processed marker is found (whether the
  temp file exists or not), an error when the check of the processed marker fails, the
  start message and an error when the check of the temp file fails, and the start
  message and the warning when the processed marker is found absent and the temp file
  is found.
\<close>

theorem marked_candidate_skipped:
  assumes "files w (processedFileName fileName) \<noteq> None \<or>
           files w (tempFileName fileName) \<noteq> None"
  shows "if Ext fileName \<in> set (extensions cfg) \<and> LastIndex fileName < 0
         then process cfg e fileName w = Inl SliceBoundsOutOfRange
         else \<exists>w'. process cfg e fileName w = Inr w' \<and> files w' = files w \<and>
                terminated w' = terminated w \<and>
                new_events w w' =
                  (if Ext fileName \<notin> set (extensions cfg) then []
                   else if os_Stat e (processedFileName fileName) w = ErrOther then [Log Error]
                   else if os_Stat e (processedFileName fileName) w = ErrNil then []
                   else if os_Stat e (tempFileName fileName) w = ErrOther
                   then [Log Info, Log Error]
                   else [Log Info, Log Warning])"
proof -
  have m: "os_Stat e (processedFileName fileName) w = ErrNotExist \<Longrightarrow>
      os_Stat e (tempFileName fileName) w \<noteq> ErrNotExist"
    using assms by (auto simp: os_Stat_def split: if_splits)
  have c: "r = ErrNil \<or> r = ErrNotExist \<or> r = ErrOther" for r
    by (cases r) simp_all
  from m c [of "os_Stat e (processedFileName fileName) w"]
    c [of "os_Stat e (tempFileName fileName) w"]
  show ?thesis
    by (auto simp: process_def Let_def new_events_def emit_def)
qed

text \<open>
  The theorem at a candidate whose temp file exists, which is skipped with the warning,
  and at \<^verbatim>\<open>videos/clip.mp4\<close> with its marker \<^verbatim>\<open>videos/.clip.mp4.processed\<close>, which is
  skipped in silence.
\<close>

theorem marked_candidate_skipped_witness:
  "files in_progress (tempFileName clip) \<noteq> None \<and>
   files marked (processedFileName ''videos/clip.mp4'') \<noteq> None \<and>
   (\<exists>w'. process keeping (calm 0 0) clip in_progress = Inr w' \<and>
         files w' = files in_progress \<and> new_events in_progress w' = [Log Info, Log Warning]) \<and>
   (\<exists>w'. process keeping (calm 0 0) ''videos/clip.mp4'' marked = Inr w' \<and>
         files w' = files marked \<and> new_events marked w' = [])"
proof -
  have h1: "files in_progress (tempFileName clip) \<noteq> None" by code_simp
  have h2: "files marked (processedFileName ''videos/clip.mp4'') \<noteq> None" by code_simp
  have a1: "Ext clip \<in> set (extensions keeping)" "\<not> LastIndex clip < 0"
    "os_Stat (calm 0 0) (processedFileName clip) in_progress = ErrNotExist"
    "os_Stat (calm 0 0) (tempFileName clip) in_progress = ErrNil"
    by code_simp+
  have a2: "Ext ''videos/clip.mp4'' \<in> set (extensions keeping)"
    "\<not> LastIndex ''videos/clip.mp4'' < 0"
    "os_Stat (calm 0 0) (processedFileName ''videos/clip.mp4'') marked = ErrNil"
    by code_simp+
  from h1 have "files in_progress (processedFileName clip) \<noteq> None \<or>
      files in_progress (tempFileName clip) \<noteq> None"
    by (rule disjI2)
  from marked_candidate_skipped [OF this, of keeping "calm 0 0"] a1
  have r1: "\<exists>w'. process keeping (calm 0 0) clip in_progress = Inr w' \<and>
         files w' = files in_progress \<and> new_events in_progress w' = [Log Info, Log Warning]"
    by auto
  from h2 have "files marked (processedFileName ''videos/clip.mp4'') \<noteq> None \<or>
      files marked (tempFileName ''videos/clip.mp4'') \<noteq> None"
    by (rule disjI1)
  from marked_candidate_skipped [OF this, of keeping "calm 0 0"] a2
  have r2: "\<exists>w'. process keeping (calm 0 0) ''videos/clip.mp4'' marked = Inr w' \<and>
         files w' = files marked \<and> new_events marked w' = []"
    by auto
  from h1 h2 r1 r2 show ?thesis by blast
qed

text \<open>
  Claim C6 as stated fails for the warning: the temp file of the candidate exists, and so
  does its processed marker. The driver ends the iteration at line 100 and logs nothing.
\<close>

theorem both_markers_no_warning:
  "files both_markers (tempFileName clip) \<noteq> None \<and>
   files both_markers (processedFileName clip) \<noteq> None \<and>
   \<not> isl (process keeping (calm 0 0) clip both_markers) \<and>
   new_events both_markers (projr (process keeping (calm 0 0) clip both_markers)) = []"
  by code_simp

subsection \<open>C7: a second run on a replaced file\<close>

text \<open>
  Claim C7. Suppose a run has replaced a candidate: the call for it emitted
  \<open>ResultReplaced\<close>. Then the processed marker of the canonical path exists, the
  canonical file exists and no temp file remains, and a second run of the loop on the
  canonical file, whatever its surroundings do, changes no file and makes no session
  and no mutating call.
\<close>

theorem second_run_skips_replaced:
  assumes first: "process cfg e fileName w = Inr w1"
    and repl: "NotifyEnd m r ResultReplaced \<in> set (new_events w w1)"
  shows "files w1 (processedFileName (extCorrectedOriginal fileName)) \<noteq> None \<and>
         files w1 (extCorrectedOriginal fileName) \<noteq> None \<and>
         files w1 (tempFileName fileName) = None \<and>
         (\<exists>w2. Run cfg [(extCorrectedOriginal fileName, e2)] w1 = Inr w2 \<and>
               files w2 = files w1 \<and>
               (\<forall>ev \<in> set (new_events w1 w2). \<not> is_session ev \<and> \<not> is_mutation ev))"
proof -
  let ?x = "extCorrectedOriginal fileName"
  let ?sw = "session_world e fileName w"
  have adm: "admitted cfg e fileName w"
  proof (rule ccontr)
    assume "\<not> admitted cfg e fileName w"
    from not_admitted_quiet [OF this] first repl show False by auto
  qed
  then have li: "0 \<le> LastIndex fileName" by (simp add: admitted_def)
  from adm first have w1: "w1 = decide cfg e fileName (ReadFileMetadata e fileName) (killed e)
      (lastReport e) ?sw"
    by (simp add: process_admitted)
  obtain evs where evs: "trace w1 = trace ?sw @ evs"
    unfolding w1 using decide_trace_prefix by blast
  have "new_events w w1 = [Log Info, Session fileName (tempFileName fileName)] @ evs"
    by (rule new_events_append) (simp add: evs trace_session_world)
  with repl have "NotifyEnd m r ResultReplaced \<in> set evs" by simp
  from decide_replaced [OF evs [unfolded w1] this li]
  have st: "files w1 (processedFileName fileName) = Some Empty"
    "files w1 (tempFileName fileName) = None" "files w1 ?x \<noteq> None" "\<not> terminated w1"
    by (simp_all add: w1)
  have "\<exists>w2. Run cfg [(?x, e2)] w1 = Inr w2 \<and> files w2 = files w1 \<and>
               (\<forall>ev \<in> set (new_events w1 w2). \<not> is_session ev \<and> \<not> is_mutation ev)"
  proof (cases "signal_before e2")
    case True
    let ?w0 = "w1\<lparr>terminated := True\<rparr>"
    from True have "Run cfg [(?x, e2)] w1 = Inr ?w0" by simp
    moreover have "new_events w1 ?w0 = []" by (simp add: new_events_def)
    ultimately show ?thesis by simp
  next
    case False
    from st(4) have w0: "w1\<lparr>terminated := False\<rparr> = w1" by simp
    have "files w1 (processedFileName ?x) \<noteq> None"
      using st(1) by (simp add: processedFileName_idem)
    from skip_when_marked [OF this LastIndex_extCorrected, of cfg e2]
    obtain w2 where "process cfg e2 ?x w1 = Inr w2" "files w2 = files w1"
      "\<forall>ev \<in> set (new_events w1 w2). \<not> is_session ev \<and> \<not> is_mutation ev"
      by blast
    moreover from this(1) False st(4) have "Run cfg [(?x, e2)] w1 = Inr w2"
      by (simp add: w0)
    ultimately show ?thesis by blast
  qed
  with st show ?thesis by (simp add: processedFileName_idem)
qed

text \<open>
  The theorem at a first run that replaces \<^verbatim>\<open>videos/clip.mkv\<close> (500 MB) by a transcoded
  file of 300 MB, followed by a second run on \<^verbatim>\<open>videos/clip.mp4\<close>.
\<close>

theorem second_run_skips_replaced_witness:
  "process replacing (calm 524288000 314572800) clip disk =
     Inr (projr (process replacing (calm 524288000 314572800) clip disk)) \<and>
   NotifyEnd (Some \<lparr>SizeInt = 314572800\<rparr>) None ResultReplaced \<in>
     set (new_events disk (projr (process replacing (calm 524288000 314572800) clip disk))) \<and>
   (\<exists>w2. Run replacing [(''videos/clip.mp4'', calm 0 0)]
           (projr (process replacing (calm 524288000 314572800) clip disk)) = Inr w2 \<and>
         files w2 = files (projr (process replacing (calm 524288000 314572800) clip disk)))"
proof -
  let ?p = "process replacing (calm 524288000 314572800) clip disk"
  have "\<not> isl ?p" by code_simp
  then have h1: "?p = Inr (projr ?p)" by simp
  have h2: "NotifyEnd (Some \<lparr>SizeInt = 314572800\<rparr>) None ResultReplaced \<in>
      set (new_events disk (projr ?p))"
    by code_simp
  have x: "extCorrectedOriginal clip = ''videos/clip.mp4''" by code_simp
  from second_run_skips_replaced [OF h1 h2, of "calm 0 0"]
  have "\<exists>w2. Run replacing [(''videos/clip.mp4'', calm 0 0)] (projr ?p) = Inr w2 \<and>
         files w2 = files (projr ?p)"
    unfolding x by blast
  with h1 h2 show ?thesis by blast
qed

subsection \<open>C8: the derived paths\<close>




subsection \<open>C9: the processed marker comes first\<close>

text \<open>
  Claim C9. When the session of an admitted candidate returns with the termination flag
  unset, the first call the driver makes is the creation of the processed marker,
  whether the session was killed or not; if the creation fails, nothing is deleted or
  renamed. Once the marker is created it is still there when the driver has handled the
  file, with the temp output removed or not, and from then on every later run over
  the same candidate, any number of times and whatever the surroundings do, changes no
  file and runs no session.
\<close>

theorem marker_precedes_mutation:
  assumes adm: "admitted cfg e fileName w"
    and run: "\<not> terminated (session_world e fileName w)"
  shows "\<exists>w' r rest. process cfg e fileName w = Inr w' \<and>
           new_events w w' =
             Log Info # Session fileName (tempFileName fileName) #
             Created (processedFileName fileName) r # rest \<and>
           (r \<noteq> ErrNil \<longrightarrow> rest = [Log Error]) \<and>
           (r = ErrNil \<longrightarrow>
              files w' (processedFileName fileName) = Some Empty \<and>
              (\<forall>cands. (\<forall>c \<in> set cands. fst c = fileName) \<longrightarrow>
                 (\<exists>w2. Run cfg cands w' = Inr w2 \<and> files w2 = files w' \<and>
                    (\<forall>ev \<in> set (new_events w' w2). \<not> is_session ev \<and> \<not> is_mutation ev))))"
proof -
  let ?sw = "session_world e fileName w"
  let ?m = "processedFileName fileName"
  let ?t = "tempFileName fileName"
  let ?w' = "decide cfg e fileName (ReadFileMetadata e fileName) (killed e) (lastReport e) ?sw"
  note pn = admitted_paths [OF adm]
  have li: "0 \<le> LastIndex fileName" using adm by (simp add: admitted_def)
  have p: "process cfg e fileName w = Inr ?w'"
    using adm by (rule process_admitted)
  show ?thesis
  proof (cases "faults e (Create ?m)")
    case True
    have "trace ?w' = trace w @ [Log Info, Session fileName ?t, Created ?m ErrOther, Log Error]"
      using True run by (simp add: decide_def os_defs trace_session_world)
    then have "new_events w ?w' =
        Log Info # Session fileName ?t # Created ?m ErrOther # [Log Error]"
      by (simp add: new_events_append)
    with p show ?thesis by blast
  next
    case False
    have "\<exists>rest. trace ?w' = trace w @ Log Info # Session fileName ?t # Created ?m ErrNil # rest"
      using False run
      by (simp add: decide_def os_defs trace_session_world Let_def split: option.split)
    then obtain rest
      where "trace ?w' = trace w @ Log Info # Session fileName ?t # Created ?m ErrNil # rest"
      by blast
    then have ev: "new_events w ?w' =
        Log Info # Session fileName ?t # Created ?m ErrNil # rest"
      by (rule new_events_append)
    have m: "files ?w' ?m = Some Empty"
      using False run pn
      by (simp add: decide_def os_defs Let_def path_neqs split: option.split)
    then have ex: "files ?w' ?m \<noteq> None" by simp
    have "\<exists>w2. Run cfg cands ?w' = Inr w2 \<and> files w2 = files ?w' \<and>
            (\<forall>ev \<in> set (new_events ?w' w2). \<not> is_session ev \<and> \<not> is_mutation ev)"
      if "\<forall>c \<in> set cands. fst c = fileName" for cands
    proof -
      from Run_marked [OF ex li that, of cfg]
      obtain w2 evs where "Run cfg cands ?w' = Inr w2" "files w2 = files ?w'"
        "trace w2 = trace ?w' @ evs" "\<forall>ev \<in> set evs. \<not> is_session ev \<and> \<not> is_mutation ev"
        by blast
      moreover from this(3) have "new_events ?w' w2 = evs" by (rule new_events_append)
      ultimately show ?thesis by blast
    qed
    with p ev m show ?thesis by blast
  qed
qed

text \<open>
  The theorem at a session that was killed with the flag unset: the marker exists
  afterwards, and two later runs over the candidate leave the files alone.
\<close>

theorem marker_precedes_mutation_witness:
  "admitted keeping early_exit clip disk \<and>
   \<not> terminated (session_world early_exit clip disk) \<and>
   (\<exists>w'. process keeping early_exit clip disk = Inr w' \<and>
         files w' (processedFileName clip) = Some Empty \<and>
         (\<exists>w2. Run keeping [(clip, calm 0 0), (clip, calm 0 0)] w' = Inr w2 \<and>
               files w2 = files w'))"
proof -
  have h1: "admitted keeping early_exit clip disk" by code_simp
  have h2: "\<not> terminated (session_world early_exit clip disk)" by code_simp
  have ok: "\<not> isl (process keeping early_exit clip disk)" by code_simp
  have ev: "new_events disk (projr (process keeping early_exit clip disk)) ! 2 =
      Created (processedFileName clip) ErrNil"
    by code_simp
  from marker_precedes_mutation [OF h1 h2]
  obtain w' r rest where p: "process keeping early_exit clip disk = Inr w'"
    and n: "new_events disk w' =
      Log Info # Session clip (tempFileName clip) # Created (processedFileName clip) r # rest"
    and c: "r = ErrNil \<longrightarrow>
      files w' (processedFileName clip) = Some Empty \<and>
      (\<forall>cands. (\<forall>c \<in> set cands. fst c = clip) \<longrightarrow>
         (\<exists>w2. Run keeping cands w' = Inr w2 \<and> files w2 = files w' \<and>
            (\<forall>ev \<in> set (new_events w' w2). \<not> is_session ev \<and> \<not> is_mutation ev)))"
    by blast
  from p ev n have "r = ErrNil" by simp
  with c have m: "files w' (processedFileName clip) = Some Empty"
    and "\<forall>cands. (\<forall>c \<in> set cands. fst c = clip) \<longrightarrow>
         (\<exists>w2. Run keeping cands w' = Inr w2 \<and> files w2 = files w' \<and>
            (\<forall>ev \<in> set (new_events w' w2). \<not> is_session ev \<and> \<not> is_mutation ev))"
    by simp_all
  from this(2) [rule_format, of "[(clip, calm 0 0), (clip, calm 0 0)]"]
  have "\<exists>w2. Run keeping [(clip, calm 0 0), (clip, calm 0 0)] w' = Inr w2 \<and>
      files w2 = files w'"
    by auto
  with p m h1 h2 show ?thesis by blast
qed

subsection \<open>C10: a rename that fails\<close>

text \<open>
  Claim C10. On the replace path (the session of an admitted candidate completes with
  the flag unset, and keep-old is disabled or the transcoded file is not larger), with
  the marker created and the original deleted, the deletion of the original comes before
  the rename of the temp output. The rename fails when it is made to fail or when the
  session left no file. Then the driver logs the error and ends the iteration: no file
  is at the original's path, the temp path holds what the session wrote, the processed
  marker exists, and the canonical path, when it differs from the original's, is as it
  was.
\<close>

theorem failed_rename_loses_original:
  assumes adm: "admitted cfg e fileName w"
    and run: "\<not> terminated (session_world e fileName w)" "\<not> killed e"
    and rep: "\<not> (keep_old cfg \<and> original_size e fileName < transcoded_size e fileName)"
    and ok: "\<not> faults e (Create (processedFileName fileName))"
            "\<not> faults e (Remove fileName)" "files w fileName \<noteq> None"
  shows "\<exists>w' r rest. process cfg e fileName w = Inr w' \<and>
           new_events w w' =
             [Log Info, Session fileName (tempFileName fileName),
              Created (processedFileName fileName) ErrNil, Removed fileName ErrNil,
              Renamed (tempFileName fileName) (extCorrectedOriginal fileName) r] @ rest \<and>
           (r \<noteq> ErrNil) =
             (faults e (Rename (tempFileName fileName) (extCorrectedOriginal fileName)) \<or>
              written e = None) \<and>
           (r \<noteq> ErrNil \<longrightarrow>
              rest = [Log Error] \<and> files w' fileName = None \<and>
              files w' (tempFileName fileName) = written e \<and>
              files w' (processedFileName fileName) = Some Empty \<and>
              (extCorrectedOriginal fileName \<noteq> fileName \<longrightarrow>
                 files w' (extCorrectedOriginal fileName) =
                   files w (extCorrectedOriginal fileName)))"
proof -
  let ?sw = "session_world e fileName w"
  let ?m = "processedFileName fileName"
  let ?t = "tempFileName fileName"
  let ?x = "extCorrectedOriginal fileName"
  let ?w' = "decide cfg e fileName (ReadFileMetadata e fileName) (killed e) (lastReport e) ?sw"
  let ?pre = "[Log Info, Session fileName ?t, Created ?m ErrNil, Removed fileName ErrNil]"
  note pn = admitted_paths [OF adm]
  have p: "process cfg e fileName w = Inr ?w'"
    using adm by (rule process_admitted)
  consider (fault) "faults e (Rename ?t ?x)"
    | (missing) "\<not> faults e (Rename ?t ?x)" "written e = None"
    | (fine) d where "\<not> faults e (Rename ?t ?x)" "written e = Some d"
    by (cases "written e") auto
  then show ?thesis
  proof cases
    case fault
    have "trace ?w' = trace w @ ?pre @ [Renamed ?t ?x ErrOther] @ [Log Error]"
      using fault run rep ok pn
      by (auto simp: decide_def os_defs trace_session_world files_session_world
            original_size_def transcoded_size_def path_neqs Let_def split: option.split)
    then have ev: "new_events w ?w' = (?pre @ [Renamed ?t ?x ErrOther]) @ [Log Error]"
      by (simp add: new_events_append)
    have "files ?w' fileName = None \<and> files ?w' ?t = written e \<and> files ?w' ?m = Some Empty \<and>
          (?x \<noteq> fileName \<longrightarrow> files ?w' ?x = files w ?x)"
      using fault run rep ok pn
      by (auto simp: decide_def os_defs files_session_world
            original_size_def transcoded_size_def path_neqs Let_def split: option.split)
    with p ev fault show ?thesis by simp
  next
    case missing
    have "trace ?w' = trace w @ ?pre @ [Renamed ?t ?x ErrNotExist] @ [Log Error]"
      using missing run rep ok pn
      by (auto simp: decide_def os_defs trace_session_world files_session_world
            original_size_def transcoded_size_def path_neqs Let_def)
    then have ev: "new_events w ?w' = (?pre @ [Renamed ?t ?x ErrNotExist]) @ [Log Error]"
      by (simp add: new_events_append)
    have "files ?w' fileName = None \<and> files ?w' ?t = written e \<and> files ?w' ?m = Some Empty \<and>
          (?x \<noteq> fileName \<longrightarrow> files ?w' ?x = files w ?x)"
      using missing run rep ok pn
      by (auto simp: decide_def os_defs files_session_world
            original_size_def transcoded_size_def path_neqs Let_def)
    with p ev missing show ?thesis by simp
  next
    case fine
    have "\<exists>rest. trace ?w' = trace w @ ?pre @ [Renamed ?t ?x ErrNil] @ rest"
      using fine run rep ok pn
      by (auto simp: decide_def os_defs trace_session_world files_session_world
            original_size_def transcoded_size_def path_neqs Let_def)
    then obtain rest where "trace ?w' = trace w @ ?pre @ [Renamed ?t ?x ErrNil] @ rest"
      by blast
    then have ev: "new_events w ?w' = (?pre @ [Renamed ?t ?x ErrNil]) @ rest"
      by (simp add: new_events_append)
    with p fine show ?thesis by simp
  qed
qed

text \<open>
  The theorem at a run where the rename of the temp output is made to fail: the original
  \<^verbatim>\<open>videos/clip.mkv\<close> is gone, the transcoded data is at the temp path only, and the
  marker exists.
\<close>

theorem failed_rename_loses_original_witness:
  "admitted replacing rename_fails clip disk \<and>
   \<not> terminated (session_world rename_fails clip disk) \<and> \<not> killed rename_fails \<and>
   \<not> keep_old replacing \<and>
   \<not> faults rename_fails (Create (processedFileName clip)) \<and>
   \<not> faults rename_fails (Remove clip) \<and> files disk clip \<noteq> None \<and>
   faults rename_fails (Rename (tempFileName clip) (extCorrectedOriginal clip)) \<and>
   (\<exists>w'. process replacing rename_fails clip disk = Inr w' \<and>
         files w' clip = None \<and>
         files w' (tempFileName clip) = Some (Data 2) \<and>
         files w' (processedFileName clip) = Some Empty \<and>
         files w' (extCorrectedOriginal clip) = None)"
proof -
  have h1: "admitted replacing rename_fails clip disk" by code_simp
  have h2: "\<not> terminated (session_world rename_fails clip disk)" by code_simp
  have h3: "\<not> killed rename_fails" by code_simp
  have k: "\<not> keep_old replacing" by code_simp
  then have h4: "\<not> (keep_old replacing \<and>
      original_size rename_fails clip < transcoded_size rename_fails clip)"
    by simp
  have h5: "\<not> faults rename_fails (Create (processedFileName clip))" by code_simp
  have h6: "\<not> faults rename_fails (Remove clip)" by code_simp
  have h7: "files disk clip \<noteq> None" by code_simp
  have f: "faults rename_fails (Rename (tempFileName clip) (extCorrectedOriginal clip))"
    by code_simp
  have wr: "written rename_fails = Some (Data 2)" by code_simp
  have x: "extCorrectedOriginal clip \<noteq> clip" by code_simp
  have x0: "files disk (extCorrectedOriginal clip) = None" by code_simp
  from failed_rename_loses_original [OF h1 h2 h3 h4 h5 h6 h7] f wr x x0
  have "\<exists>w'. process replacing rename_fails clip disk = Inr w' \<and>
         files w' clip = None \<and>
         files w' (tempFileName clip) = Some (Data 2) \<and>
         files w' (processedFileName clip) = Some Empty \<and>
         files w' (extCorrectedOriginal clip) = None"
    by auto
  with h1 h2 h3 k h5 h6 h7 f show ?thesis by blast
qed

end
